theory Spec2Isabelle
  imports Main
begin

section \<open>Text: characters, character classes and string primitives\<close>

text \<open>
  The script \<^verbatim>\<open>scripts/validate-links.py\<close> works on Python \<^verbatim>\<open>str\<close> values, which are
  sequences of code points. Here a text is a \<^typ>\<open>string\<close>, and a \<^typ>\<open>char\<close> stands for
  the code point of the same number, so the model covers every text whose code points
  are below 256. The character classes are those of Python 3 on that range:
  \<^verbatim>\<open>str.isspace\<close> (also the class \<^verbatim>\<open>\s\<close> of a \<^verbatim>\<open>str\<close> pattern), the class \<^verbatim>\<open>\w\<close>
  (\<^verbatim>\<open>str.isalnum\<close> or an underscore) and \<^verbatim>\<open>str.lower\<close>.
\<close>

definition code :: "char \<Rightarrow> nat" where
  "code c = of_char c"

definition is_space :: "char \<Rightarrow> bool" where
  \<comment> \<open>TAB, LF, VT, FF, CR, the separators FS GS RS US, space, NEL and the no-break space\<close>
  "is_space c \<longleftrightarrow>
     (9 \<le> code c \<and> code c \<le> 13) \<or> (28 \<le> code c \<and> code c \<le> 32) \<or>
     code c = 133 \<or> code c = 160"

definition is_word :: "char \<Rightarrow> bool" where
  \<comment> \<open>digits, letters, underscore; beyond ASCII the letters, superscript digits and
      vulgar fractions of the range, but not the multiplication and division signs\<close>
  "is_word c \<longleftrightarrow>
     (48 \<le> code c \<and> code c \<le> 57) \<or> (65 \<le> code c \<and> code c \<le> 90) \<or> code c = 95 \<or>
     (97 \<le> code c \<and> code c \<le> 122) \<or>
     code c = 170 \<or> code c = 178 \<or> code c = 179 \<or> code c = 181 \<or>
     code c = 185 \<or> code c = 186 \<or> (188 \<le> code c \<and> code c \<le> 190) \<or>
     (192 \<le> code c \<and> code c \<le> 214) \<or> (216 \<le> code c \<and> code c \<le> 246) \<or>
     (248 \<le> code c \<and> code c \<le> 255)"

definition is_upper :: "char \<Rightarrow> bool" where
  "is_upper c \<longleftrightarrow>
     (65 \<le> code c \<and> code c \<le> 90) \<or> (192 \<le> code c \<and> code c \<le> 214) \<or>
     (216 \<le> code c \<and> code c \<le> 222)"

definition lower_char :: "char \<Rightarrow> char" where
  "lower_char c = (if is_upper c then char_of (code c + 32) else c)"

definition lower :: "string \<Rightarrow> string" where
  \<comment> \<open>\<^verbatim>\<open>s.lower()\<close>\<close>
  "lower s = map lower_char s"

definition strip :: "string \<Rightarrow> string" where
  \<comment> \<open>\<^verbatim>\<open>s.strip()\<close>: whitespace removed at both ends\<close>
  "strip s = rev (dropWhile is_space (rev (dropWhile is_space s)))"

definition strip_chars :: "char \<Rightarrow> string \<Rightarrow> string" where
  \<comment> \<open>\<^verbatim>\<open>s.strip(c)\<close> for a single character \<^verbatim>\<open>c\<close>\<close>
  "strip_chars c s = rev (dropWhile (\<lambda>x. x = c) (rev (dropWhile (\<lambda>x. x = c) s)))"

fun startswith :: "string \<Rightarrow> string \<Rightarrow> bool" where
  \<comment> \<open>\<^verbatim>\<open>s.startswith(p)\<close>\<close>
  "startswith s [] = True"
| "startswith [] (p # ps) = False"
| "startswith (c # cs) (p # ps) = (c = p \<and> startswith cs ps)"

definition endswith :: "string \<Rightarrow> string \<Rightarrow> bool" where
  \<comment> \<open>\<^verbatim>\<open>s.endswith(p)\<close>\<close>
  "endswith s p = startswith (rev s) (rev p)"

fun contains :: "string \<Rightarrow> string \<Rightarrow> bool" where
  \<comment> \<open>\<^verbatim>\<open>p in s\<close>: \<^verbatim>\<open>p\<close> occurs in \<^verbatim>\<open>s\<close> as a substring\<close>
  "contains [] p = (p = [])"
| "contains (c # cs) p = (startswith (c # cs) p \<or> contains cs p)"

fun split_on :: "char \<Rightarrow> string \<Rightarrow> string list" where
  \<comment> \<open>\<^verbatim>\<open>s.split(c)\<close> for a single character: \<^verbatim>\<open>''.split(c) == ['']\<close>\<close>
  "split_on d [] = [[]]"
| "split_on d (c # cs) =
     (if c = d then [] # split_on d cs
      else (case split_on d cs of [] \<Rightarrow> [[c]] | w # ws \<Rightarrow> (c # w) # ws))"

fun join :: "string \<Rightarrow> string list \<Rightarrow> string" where
  \<comment> \<open>\<^verbatim>\<open>sep.join(parts)\<close>\<close>
  "join sep [] = []"
| "join sep [w] = w"
| "join sep (w # ws) = w @ sep @ join sep ws"

section \<open>Regular-expression substitutions of the slugifier\<close>

text \<open>
  \<^verbatim>\<open>re.sub\<close> scans the text from the left. At each position it tries the pattern; on a
  match it emits the replacement and goes on after the match, otherwise it emits the
  character and moves one position to the right. None of the patterns below matches the
  empty text.
\<close>

fun find_close :: "string \<Rightarrow> string \<Rightarrow> (string \<times> string) option" where
  \<comment> \<open>the lazy group \<^verbatim>\<open>(.+?)\<close> followed by the literal \<^verbatim>\<open>d\<close>: the shortest non-empty run
      of characters other than the line feed after which \<^verbatim>\<open>d\<close> follows; the result is
      the group and the text after \<^verbatim>\<open>d\<close>\<close>
  "find_close d [] = None"
| "find_close d (c # cs) =
     (if c = CHR 0x0A then None
      else if startswith cs d then Some ([c], drop (length d) cs)
      else (case find_close d cs of
              None \<Rightarrow> None
            | Some (inner, rest) \<Rightarrow> Some (c # inner, rest)))"

lemma find_close_shorter:
  "find_close d s = Some (inner, rest) \<Longrightarrow> length rest < length s"
  by (induction s arbitrary: inner rest)
     (auto split: if_splits option.splits simp: less_Suc_eq_le)

function sub_delim :: "string \<Rightarrow> string \<Rightarrow> string" where
  \<comment> \<open>\<^verbatim>\<open>re.sub(d (.+?) d, r'\1', s)\<close> for a literal delimiter \<^verbatim>\<open>d\<close>\<close>
  "sub_delim d [] = []"
| "sub_delim d (c # cs) =
     (if startswith (c # cs) d then
        (case find_close d (drop (length d) (c # cs)) of
           Some (inner, rest) \<Rightarrow> inner @ sub_delim d rest
         | None \<Rightarrow> c # sub_delim d cs)
      else c # sub_delim d cs)"
  by pat_completeness auto
termination
  by (relation "measure (\<lambda>(d, s). length s)")
     (auto dest!: find_close_shorter)

definition match_link :: "nat \<Rightarrow> string \<Rightarrow> (string \<times> string \<times> string) option" where
  \<comment> \<open>the pattern \<^verbatim>\<open>\[([^\]]{m,})\]\(([^)]+)\)\<close> tried at the start of \<^verbatim>\<open>s\<close>: both
      groups are greedy runs ended by the first closing bracket, so there is one
      candidate only. The result is the display text, the target and the text after
      the match.\<close>
  "match_link m s =
     (case s of
        [] \<Rightarrow> None
      | c # cs \<Rightarrow>
          if c \<noteq> CHR ''['' then None
          else
            let text = takeWhile (\<lambda>x. x \<noteq> CHR '']'') cs;
                r = dropWhile (\<lambda>x. x \<noteq> CHR '']'') cs
            in if length text < m \<or> \<not> startswith r '']('' then None
               else
                 let target = takeWhile (\<lambda>x. x \<noteq> CHR '')'') (drop 2 r);
                     r' = dropWhile (\<lambda>x. x \<noteq> CHR '')'') (drop 2 r)
                 in if target = [] \<or> r' = [] then None
                    else Some (text, target, tl r'))"

lemma match_link_shorter:
  "match_link m s = Some (text, target, rest) \<Longrightarrow> length rest < length s"
proof -
  assume a: "match_link m s = Some (text, target, rest)"
  then obtain c cs where s: "s = c # cs" by (cases s) (auto simp: match_link_def)
  let ?r = "dropWhile (\<lambda>x. x \<noteq> CHR '']'') cs"
  let ?r' = "dropWhile (\<lambda>x. x \<noteq> CHR '')'') (drop 2 ?r)"
  from a s have "rest = tl ?r'"
    by (auto simp: match_link_def Let_def split: if_splits)
  moreover have "length ?r' \<le> length (drop 2 ?r)" by (rule length_dropWhile_le)
  moreover have "length ?r \<le> length cs" by (rule length_dropWhile_le)
  ultimately show ?thesis using s by simp
qed

function sub_link :: "string \<Rightarrow> string" where
  \<comment> \<open>\<^verbatim>\<open>re.sub(r'\[([^\]]+)\]\([^)]+\)', r'\1', s)\<close>\<close>
  "sub_link [] = []"
| "sub_link (c # cs) =
     (case match_link 1 (c # cs) of
        Some (text, target, rest) \<Rightarrow> text @ sub_link rest
      | None \<Rightarrow> c # sub_link cs)"
  by pat_completeness auto
termination
  by (relation "measure length") (auto dest: match_link_shorter)

definition remove_nonword :: "string \<Rightarrow> string" where
  \<comment> \<open>\<^verbatim>\<open>re.sub(r'[^\w\s-]', '', s)\<close>\<close>
  "remove_nonword s = filter (\<lambda>c. is_word c \<or> is_space c \<or> c = CHR ''-'') s"

function hyphenate :: "string \<Rightarrow> string" where
  \<comment> \<open>\<^verbatim>\<open>re.sub(r'[\s]+', '-', s)\<close>: every maximal run of whitespace becomes one hyphen\<close>
  "hyphenate [] = []"
| "hyphenate (c # cs) =
     (if is_space c then CHR ''-'' # hyphenate (dropWhile is_space cs)
      else c # hyphenate cs)"
  by pat_completeness auto
termination
  by (relation "measure length") (auto simp: less_Suc_eq_le length_dropWhile_le)

section \<open>The heading slugifier\<close>

definition slugify_heading :: "string \<Rightarrow> string" where
  "slugify_heading heading =
     (let heading = strip heading;
          heading = sub_delim ''**'' heading;
          heading = sub_delim ''*'' heading;
          heading = sub_delim ''`'' heading;
          heading = sub_link heading;
          heading = lower heading;
          heading = remove_nonword heading;
          heading = hyphenate heading;
          heading = strip_chars CHR ''-'' heading
      in heading)"


section \<open>The file system\<close>

text \<open>
  The script reads the live file system through \<^verbatim>\<open>pathlib\<close>. The model is a directory
  tree without symbolic links: a regular file holds the text \<^verbatim>\<open>read_text\<close> returns for
  it, or nothing when reading it raises \<^verbatim>\<open>OSError\<close> or \<^verbatim>\<open>UnicodeDecodeError\<close>; a
  directory holds its entries in the order \<^verbatim>\<open>iterdir\<close> yields them. A path is absolute
  and is the list of its components below the root.
\<close>

datatype node = File "string option" | Dir "(string \<times> node) list"

type_synonym path = "string list"

datatype error = ValueError | NotADirectoryError | FileNotFoundError

fun lookup :: "node \<Rightarrow> path \<Rightarrow> node option" where
  "lookup n [] = Some n"
| "lookup (File t) (c # cs) = None"
| "lookup (Dir es) (c # cs) =
     (case map_of es c of None \<Rightarrow> None | Some n \<Rightarrow> lookup n cs)"

definition exists :: "node \<Rightarrow> path \<Rightarrow> bool" where
  \<comment> \<open>\<^verbatim>\<open>p.exists()\<close>; a path below a regular file does not exist\<close>
  "exists fs p = (lookup fs p \<noteq> None)"

definition is_file :: "node \<Rightarrow> path \<Rightarrow> bool" where
  \<comment> \<open>\<^verbatim>\<open>p.is_file()\<close>\<close>
  "is_file fs p = (case lookup fs p of Some (File t) \<Rightarrow> True | _ \<Rightarrow> False)"

definition read_text :: "node \<Rightarrow> path \<Rightarrow> string option" where
  \<comment> \<open>\<^verbatim>\<open>p.read_text(encoding='utf-8')\<close>; \<open>None\<close> stands for the \<^verbatim>\<open>OSError\<close> of a missing
      path, of a directory and of a file that may not be read, and for
      \<^verbatim>\<open>UnicodeDecodeError\<close>\<close>
  "read_text fs p = (case lookup fs p of Some (File t) \<Rightarrow> t | _ \<Rightarrow> None)"

definition iterdir :: "node \<Rightarrow> path \<Rightarrow> error + string list" where
  \<comment> \<open>\<^verbatim>\<open>[q.name for q in p.iterdir()]\<close>; listing a regular file raises
      \<^verbatim>\<open>NotADirectoryError\<close>, listing a missing path \<^verbatim>\<open>FileNotFoundError\<close>\<close>
  "iterdir fs p =
     (case lookup fs p of
        Some (Dir es) \<Rightarrow> Inr (map fst es)
      | Some (File t) \<Rightarrow> Inl NotADirectoryError
      | None \<Rightarrow> Inl FileNotFoundError)"

definition parent :: "path \<Rightarrow> path" where
  "parent p = butlast p"

definition name :: "path \<Rightarrow> string" where
  "name p = (if p = [] then [] else last p)"

definition parts :: "string \<Rightarrow> bool \<times> string list" where
  \<comment> \<open>how \<^verbatim>\<open>pathlib\<close> reads a path text: whether it is absolute, and its components,
      with empty components and single dots dropped\<close>
  "parts s = (startswith s ''/'', filter (\<lambda>c. c \<noteq> [] \<and> c \<noteq> ''.'') (split_on CHR ''/'' s))"

definition joinpath :: "path \<Rightarrow> string \<Rightarrow> path" where
  \<comment> \<open>\<^verbatim>\<open>p / s\<close>: an absolute \<^verbatim>\<open>s\<close> replaces \<^verbatim>\<open>p\<close>\<close>
  "joinpath p s = (case parts s of (absolute, cs) \<Rightarrow> if absolute then cs else p @ cs)"

definition resolve :: "path \<Rightarrow> path" where
  \<comment> \<open>\<^verbatim>\<open>p.resolve()\<close> without symbolic links: each \<^verbatim>\<open>..\<close> drops the component before it,
      and the root is its own parent\<close>
  "resolve p = fold (\<lambda>c acc. if c = ''..'' then butlast acc else acc @ [c]) p []"

definition relative_to :: "path \<Rightarrow> path \<Rightarrow> error + string" where
  \<comment> \<open>\<^verbatim>\<open>str(p.relative_to(root))\<close>; \<^verbatim>\<open>ValueError\<close> when \<^verbatim>\<open>p\<close> is not below \<^verbatim>\<open>root\<close>\<close>
  "relative_to p root =
     (if take (length root) p = root
      then Inr (if drop (length root) p = [] then ''.'' else join ''/'' (drop (length root) p))
      else Inl ValueError)"

section \<open>The anchor extractor\<close>

definition match_heading :: "string \<Rightarrow> (string \<times> string) option" where
  \<comment> \<open>the pattern \<^verbatim>\<open>#{1,6}\s+(.+)$\<close> tried at the start of a line: the group and the
      text after the match. The run \<^verbatim>\<open>\s+\<close> is greedy and may cross line feeds; when
      it reaches the end of the text, the engine gives characters back until the
      group can start on one that is not a line feed.\<close>
  "match_heading s =
     (let hashes = takeWhile (\<lambda>x. x = CHR ''#'') s;
          r = dropWhile (\<lambda>x. x = CHR ''#'') s;
          ws = takeWhile is_space r;
          r' = dropWhile is_space r
      in if length hashes < 1 \<or> 6 < length hashes \<or> ws = [] then None
         else if r' \<noteq> [] then
           Some (takeWhile (\<lambda>x. x \<noteq> CHR 0x0A) r', dropWhile (\<lambda>x. x \<noteq> CHR 0x0A) r')
         else
           (case dropWhile (\<lambda>x. x = CHR 0x0A) (rev (tl ws)) of
              [] \<Rightarrow> None
            | c # kept \<Rightarrow> Some ([c], drop (Suc (length kept)) (tl ws))))"

lemma match_heading_shorter:
  "match_heading s = Some (g, rest) \<Longrightarrow> length rest < length s"
proof -
  assume a: "match_heading s = Some (g, rest)"
  let ?r = "dropWhile (\<lambda>x. x = CHR ''#'') s"
  let ?ws = "takeWhile is_space ?r"
  let ?r' = "dropWhile is_space ?r"
  from a have h: "takeWhile (\<lambda>x. x = CHR ''#'') s \<noteq> []"
    by (auto simp: match_heading_def Let_def split: if_splits)
  have "length (takeWhile (\<lambda>x. x = CHR ''#'') s) + length ?r = length s"
    by (metis length_append takeWhile_dropWhile_id)
  with h have r: "length ?r < length s"
    by (cases "takeWhile (\<lambda>x. x = CHR ''#'') s") auto
  show ?thesis
  proof (cases "?r' \<noteq> []")
    case True
    with a have "rest = dropWhile (\<lambda>x. x \<noteq> CHR 0x0A) ?r'"
      by (auto simp: match_heading_def Let_def split: if_splits)
    moreover have "length (dropWhile (\<lambda>x. x \<noteq> CHR 0x0A) ?r') \<le> length ?r'"
      by (rule length_dropWhile_le)
    moreover have "length ?r' \<le> length ?r" by (rule length_dropWhile_le)
    ultimately show ?thesis using r by simp
  next
    case False
    with a obtain n where "rest = drop n (tl ?ws)"
      by (auto simp: match_heading_def Let_def split: if_splits list.splits)
    moreover have "length ?ws \<le> length ?r" by (rule length_takeWhile_le)
    ultimately show ?thesis using r by simp
  qed
qed

function headings_from :: "bool \<Rightarrow> string \<Rightarrow> string list" where
  \<comment> \<open>\<^verbatim>\<open>HEADING_PATTERN.finditer\<close>: the groups of the successive matches; the flag says
      whether the position is the start of a line, where \<^verbatim>\<open>^\<close> matches\<close>
  "headings_from bol [] = []"
| "headings_from bol (c # cs) =
     (if bol then
        (case match_heading (c # cs) of
           Some (g, rest) \<Rightarrow> g # headings_from False rest
         | None \<Rightarrow> headings_from (c = CHR 0x0A) cs)
      else headings_from (c = CHR 0x0A) cs)"
  by pat_completeness auto
termination
  by (relation "measure (\<lambda>(b, s). length s)") (auto dest: match_heading_shorter)

definition headings :: "string \<Rightarrow> string list" where
  "headings content = headings_from True content"

definition extract_anchors :: "node \<Rightarrow> path \<Rightarrow> string set" where
  "extract_anchors fs filepath =
     (case read_text fs filepath of
        None \<Rightarrow> {}
      | Some content \<Rightarrow>
          fold (\<lambda>h anchors. let slug = slugify_heading h
                             in if slug \<noteq> [] then insert slug anchors else anchors)
               (headings content) {})"

section \<open>The link resolver\<close>

text \<open>
  An issue is the dictionary with the keys \<^verbatim>\<open>'file'\<close>, \<^verbatim>\<open>'line'\<close>, \<^verbatim>\<open>'link'\<close> and
  \<^verbatim>\<open>'issue'\<close>.
\<close>

record issue =
  i_file :: string
  i_line :: nat
  i_link :: string
  i_issue :: string

function find_links :: "string \<Rightarrow> string list" where
  \<comment> \<open>the second groups of \<^verbatim>\<open>LINK_PATTERN.finditer(line)\<close>, from left to right\<close>
  "find_links [] = []"
| "find_links (c # cs) =
     (case match_link 0 (c # cs) of
        Some (text, target, rest) \<Rightarrow> target # find_links rest
      | None \<Rightarrow> find_links cs)"
  by pat_completeness auto
termination
  by (relation "measure length") (auto dest: match_link_shorter)

definition report :: "path \<Rightarrow> path \<Rightarrow> nat \<Rightarrow> string \<Rightarrow> string \<Rightarrow> error + issue list" where
  \<comment> \<open>the record \<^verbatim>\<open>issues.append\<close> receives; building it raises when the document is
      not below \<^verbatim>\<open>codex_root\<close>\<close>
  "report codex_root filepath line_num link_target text =
     (case relative_to filepath codex_root of
        Inl e \<Rightarrow> Inl e
      | Inr rel \<Rightarrow> Inr [\<lparr>i_file = rel, i_line = line_num, i_link = link_target, i_issue = text\<rparr>])"

fun first_similar :: "string \<Rightarrow> string list \<Rightarrow> string" where
  \<comment> \<open>the loop over the siblings, lines 98 to 101\<close>
  "first_similar nm [] = []"
| "first_similar nm (sib # sibs) =
     (if contains sib nm \<or> contains nm sib then '' (did you mean `'' @ sib @ ''`?)''
      else first_similar nm sibs)"

definition suggest :: "node \<Rightarrow> path \<Rightarrow> error + string" where
  \<comment> \<open>lines 93 to 101\<close>
  "suggest fs resolved =
     (if exists fs (parent resolved) then
        (case iterdir fs (parent resolved) of
           Inl e \<Rightarrow> Inl e
         | Inr siblings \<Rightarrow> Inr (first_similar (name resolved) siblings))
      else Inr [])"

definition split_target :: "string \<Rightarrow> string \<times> string option" where
  \<comment> \<open>lines 84 to 88: \<^verbatim>\<open>link_target.split('#', 1)\<close> when there is a hash\<close>
  "split_target link_target =
     (if CHR ''#'' \<in> set link_target
      then (takeWhile (\<lambda>x. x \<noteq> CHR ''#'') link_target,
            Some (tl (dropWhile (\<lambda>x. x \<noteq> CHR ''#'') link_target)))
      else (link_target, None))"

definition check_link :: "node \<Rightarrow> path \<Rightarrow> path \<Rightarrow> nat \<Rightarrow> string \<Rightarrow> error + issue list" where
  \<comment> \<open>the body of the inner loop, lines 66 to 119, for one match: the issues it appends\<close>
  "check_link fs codex_root filepath line_num link_target =
     (if startswith link_target ''http://'' \<or> startswith link_target ''https://'' \<or>
         startswith link_target ''mailto:'' then Inr []
      else if startswith link_target ''#'' then
        (let anchor = drop 1 link_target;
             file_anchors = extract_anchors fs filepath
         in if anchor \<notin> file_anchors
            then report codex_root filepath line_num link_target ''Anchor not found in file''
            else Inr [])
      else
        (case split_target link_target of
           (file_part, anchor_part) \<Rightarrow>
             let resolved = resolve (joinpath (parent filepath) file_part)
             in if \<not> exists fs resolved then
                  (case suggest fs resolved of
                     Inl e \<Rightarrow> Inl e
                   | Inr suggestion \<Rightarrow>
                       report codex_root filepath line_num link_target
                         ((if endswith file_part ''/'' then ''Directory'' else ''File'')
                          @ '' not found'' @ suggestion))
                else if anchor_part \<noteq> None \<and> anchor_part \<noteq> Some [] \<and> is_file fs resolved then
                  (let file_anchors = extract_anchors fs resolved
                   in if the anchor_part \<notin> file_anchors
                      then report codex_root filepath line_num link_target
                             (''Anchor `#'' @ the anchor_part @ ''` not found in target file'')
                      else Inr [])
                else Inr []))"

fun check_links :: "node \<Rightarrow> path \<Rightarrow> path \<Rightarrow> nat \<Rightarrow> string list \<Rightarrow> issue list \<Rightarrow> error + issue list" where
  \<comment> \<open>the inner loop, line 65, over the matches of one line\<close>
  "check_links fs codex_root filepath line_num [] issues = Inr issues"
| "check_links fs codex_root filepath line_num (t # ts) issues =
     (case check_link fs codex_root filepath line_num t of
        Inl e \<Rightarrow> Inl e
      | Inr new \<Rightarrow> check_links fs codex_root filepath line_num ts (issues @ new))"

definition is_fence :: "string \<Rightarrow> bool" where
  \<comment> \<open>line 62\<close>
  "is_fence ln = startswith (strip ln) ''```''"

fun check_lines :: "node \<Rightarrow> path \<Rightarrow> path \<Rightarrow> nat \<Rightarrow> string list \<Rightarrow> issue list \<Rightarrow> error + issue list" where
  \<comment> \<open>the outer loop, line 61, from line number \<open>line_num\<close> on\<close>
  "check_lines fs codex_root filepath line_num [] issues = Inr issues"
| "check_lines fs codex_root filepath line_num (ln # lns) issues =
     (if is_fence ln then check_lines fs codex_root filepath (Suc line_num) lns issues
      else
        (case check_links fs codex_root filepath line_num (find_links ln) issues of
           Inl e \<Rightarrow> Inl e
         | Inr issues' \<Rightarrow> check_lines fs codex_root filepath (Suc line_num) lns issues'))"

definition validate_file :: "node \<Rightarrow> path \<Rightarrow> path \<Rightarrow> path \<Rightarrow> error + issue list" where
  \<comment> \<open>\<open>codex_root\<close> is the module constant of line 18, \<open>scan_root\<close> the second argument\<close>
  "validate_file fs codex_root filepath scan_root =
     (case read_text fs filepath of
        None \<Rightarrow> Inr []
      | Some content \<Rightarrow>
          check_lines fs codex_root filepath 1 (split_on CHR 0x0A content) [])"


section \<open>The references a scan visits\<close>



text \<open>
  A small tree for the concrete cases: the root \<^verbatim>\<open>codex\<close> with the directory \<^verbatim>\<open>docs\<close>,
  which holds documents, an unreadable file and an empty directory.
\<close>

definition example_fs :: node where
  "example_fs =
     Dir [(''codex'', Dir [(''docs'', Dir [
       (''fenced.md'', File (Some (''```'' @ [CHR 0x0A] @ ''see [x](y.md)'' @ [CHR 0x0A] @ ''```''))),
       (''top.md'', File (Some (''# ???'' @ [CHR 0x0A] @ ''[top](#)''))),
       (''crash.md'', File (Some ''[q](b.md/c)'')),
       (''intro.md'', File (Some (''# Intro'' @ [CHR 0x0A] @ ''text'' @ [CHR 0x0A] @ ''## Intro''))),
       (''b.md'', File (Some ''# Title'')),
       (''bad.md'', File None),
       (''sub'', Dir [])])])]"

section \<open>Properties of the slugifier\<close>






lemma word_not_space: "is_word c \<Longrightarrow> \<not> is_space c"
  unfolding is_word_def is_space_def by arith


















section \<open>Properties of the anchor extractor and of the loops\<close>

lemma fold_anchors:
  "fold (\<lambda>h anchors. let slug = slugify_heading h
                      in if slug \<noteq> [] then insert slug anchors else anchors) hs A =
   A \<union> {s. s \<noteq> [] \<and> (\<exists>h\<in>set hs. slugify_heading h = s)}"
  by (induction hs arbitrary: A) (auto simp: Let_def)

lemma extract_anchors_eq:
  "extract_anchors fs p =
     (case read_text fs p of
        None \<Rightarrow> {}
      | Some content \<Rightarrow> {s. s \<noteq> [] \<and> (\<exists>h\<in>set (headings content). slugify_heading h = s)})"
  by (simp add: extract_anchors_def fold_anchors split: option.splits)

lemma startswith_hash_not_external:
  "startswith t ''#'' \<Longrightarrow>
   \<not> (startswith t ''http://'' \<or> startswith t ''https://'' \<or> startswith t ''mailto:'')"
  by (cases t) auto

lemma startswith_append: "startswith (p @ s) p"
  by (induction p) auto

lemma split_target_hash:
  "CHR ''#'' \<notin> set file_part \<Longrightarrow> split_target (file_part @ ''#'' @ a) = (file_part, Some a)"
proof -
  assume a: "CHR ''#'' \<notin> set file_part"
  then have t: "takeWhile (\<lambda>x. x \<noteq> CHR ''#'') (file_part @ CHR ''#'' # a) = file_part"
    by (induction file_part) auto
  from a have d: "dropWhile (\<lambda>x. x \<noteq> CHR ''#'') (file_part @ CHR ''#'' # a) = CHR ''#'' # a"
    by (induction file_part) auto
  show ?thesis by (simp add: split_target_def t d)
qed

lemma is_file_exists: "is_file fs p \<Longrightarrow> exists fs p"
  by (auto simp: is_file_def exists_def split: option.splits)

lemma report_file:
  "report cr fp n t txt = Inr new \<Longrightarrow> i \<in> set new \<Longrightarrow> relative_to fp cr = Inr (i_file i)"
  by (auto simp: report_def split: sum.splits)

lemma check_link_file:
  "check_link fs cr fp n t = Inr new \<Longrightarrow> i \<in> set new \<Longrightarrow> relative_to fp cr = Inr (i_file i)"
  unfolding check_link_def Let_def
  by (auto split: if_splits prod.splits sum.splits dest: report_file)

lemma check_links_file:
  "check_links fs cr fp n ts acc = Inr issues \<Longrightarrow>
   \<forall>i\<in>set acc. relative_to fp cr = Inr (i_file i) \<Longrightarrow>
   \<forall>i\<in>set issues. relative_to fp cr = Inr (i_file i)"
proof (induction ts arbitrary: acc)
  case Nil
  then show ?case by simp
next
  case (Cons t ts)
  from Cons.prems(1) obtain new where
    n: "check_link fs cr fp n t = Inr new" and
    r: "check_links fs cr fp n ts (acc @ new) = Inr issues"
    by (auto split: sum.splits)
  from n Cons.prems(2) have "\<forall>i\<in>set (acc @ new). relative_to fp cr = Inr (i_file i)"
    by (auto dest: check_link_file)
  with Cons.IH[OF r] show ?case by blast
qed

lemma check_lines_file:
  "check_lines fs cr fp n lns acc = Inr issues \<Longrightarrow>
   \<forall>i\<in>set acc. relative_to fp cr = Inr (i_file i) \<Longrightarrow>
   \<forall>i\<in>set issues. relative_to fp cr = Inr (i_file i)"
proof (induction lns arbitrary: acc n)
  case Nil
  then show ?case by simp
next
  case (Cons ln lns)
  show ?case
  proof (cases "is_fence ln")
    case True
    with Cons.prems(1) have "check_lines fs cr fp (Suc n) lns acc = Inr issues" by simp
    from Cons.IH[OF this Cons.prems(2)] show ?thesis .
  next
    case False
    with Cons.prems(1) obtain acc' where
      a: "check_links fs cr fp n (find_links ln) acc = Inr acc'" and
      r: "check_lines fs cr fp (Suc n) lns acc' = Inr issues"
      by (auto split: sum.splits)
    from check_links_file[OF a Cons.prems(2)] Cons.IH[OF r] show ?thesis by blast
  qed
qed


lemma check_link_cross:
  assumes "\<not> (startswith t ''http://'' \<or> startswith t ''https://'' \<or> startswith t ''mailto:'')"
    and "\<not> startswith t ''#''"
    and "split_target t = (file_part, anchor_part)"
    and "exists fs (resolve (joinpath (parent fp) file_part))"
  shows "check_link fs cr fp n t =
     (if anchor_part \<noteq> None \<and> anchor_part \<noteq> Some [] \<and>
         is_file fs (resolve (joinpath (parent fp) file_part)) \<and>
         the anchor_part \<notin> extract_anchors fs (resolve (joinpath (parent fp) file_part))
      then report cr fp n t (''Anchor `#'' @ the anchor_part @ ''` not found in target file'')
      else Inr [])"
  using assms by (auto simp: check_link_def Let_def)

lemma check_link_missing:
  assumes "\<not> (startswith t ''http://'' \<or> startswith t ''https://'' \<or> startswith t ''mailto:'')"
    and "\<not> startswith t ''#''"
    and "split_target t = (file_part, anchor_part)"
    and "\<not> exists fs (resolve (joinpath (parent fp) file_part))"
  shows "check_link fs cr fp n t =
     (case suggest fs (resolve (joinpath (parent fp) file_part)) of
        Inl e \<Rightarrow> Inl e
      | Inr suggestion \<Rightarrow>
          report cr fp n t ((if endswith file_part ''/'' then ''Directory'' else ''File'')
                            @ '' not found'' @ suggestion))"
  using assms by (simp add: check_link_def Let_def)






lemma first_similar_form:
  "first_similar nm sibs = [] \<or>
   (\<exists>sib\<in>set sibs. (contains sib nm \<or> contains nm sib) \<and>
      first_similar nm sibs = '' (did you mean `'' @ sib @ ''`?)'')"
  by (induction sibs) auto

lemma first_similar_find:
  "first_similar nm sibs =
     (case find (\<lambda>sib. contains sib nm \<or> contains nm sib) sibs of
        None \<Rightarrow> []
      | Some sib \<Rightarrow> '' (did you mean `'' @ sib @ ''`?)'')"
  by (induction sibs) auto

lemma suggest_ok:
  "\<not> is_file fs (parent resolved) \<Longrightarrow>
   suggest fs resolved =
     Inr (case lookup fs (parent resolved) of
            Some (Dir es) \<Rightarrow> first_similar (name resolved) (map fst es)
          | _ \<Rightarrow> [])"
  by (auto simp: suggest_def is_file_def exists_def iterdir_def split: option.splits node.splits)

lemma check_link_missing_ok:
  assumes "\<not> (startswith t ''http://'' \<or> startswith t ''https://'' \<or> startswith t ''mailto:'')"
    and "\<not> startswith t ''#''"
    and "split_target t = (file_part, anchor_part)"
    and "\<not> exists fs (resolve (joinpath (parent fp) file_part))"
    and "\<not> is_file fs (parent (resolve (joinpath (parent fp) file_part)))"
    and "relative_to fp cr = Inr rel"
  shows "check_link fs cr fp n t =
     Inr [\<lparr>i_file = rel, i_line = n, i_link = t,
            i_issue = (if endswith file_part ''/'' then ''Directory'' else ''File'')
              @ '' not found''
              @ (case lookup fs (parent (resolve (joinpath (parent fp) file_part))) of
                   Some (Dir es) \<Rightarrow>
                     first_similar (name (resolve (joinpath (parent fp) file_part))) (map fst es)
                 | _ \<Rightarrow> [])\<rparr>]"
  by (simp only: check_link_missing[OF assms(1-4)] suggest_ok[OF assms(5)] sum.case
        report_def assms(6))


section \<open>The claims about the link resolver\<close>

text \<open>
  \<open>check_link\<close> is the body of the inner loop for one reference, and \<open>validate_file\<close>
  runs it over the references of the document in their order (lemma
  \<open>validate_file_refs\<close>), stopping at the first exception. What a claim says about one
  reference is therefore stated for \<open>check_link\<close>. Building an issue needs the path of
  the document relative to \<^verbatim>\<open>codex_root\<close>; the theorems that exhibit an issue take a
  document below \<^verbatim>\<open>codex_root\<close>.
\<close>

text \<open>
  Claim C1 says that the path an issue carries is the document's path relative to the
  \<^verbatim>\<open>scan_root\<close> argument. The code builds it relative to the module constant
  \<^verbatim>\<open>codex_root\<close> at all three places and never reads \<^verbatim>\<open>scan_root\<close>. As amended: the
  result of \<^verbatim>\<open>validate_file\<close> does not depend on \<^verbatim>\<open>scan_root\<close>, and the path of every
  issue it returns is the document's path relative to \<^verbatim>\<open>codex_root\<close>.
\<close>

theorem issue_path_relative_to_codex_root:
  "validate_file fs cr fp sr = validate_file fs cr fp sr' \<and>
   (validate_file fs cr fp sr = Inr issues \<longrightarrow>
      (\<forall>i\<in>set issues. relative_to fp cr = Inr (i_file i)))"
proof
  show "validate_file fs cr fp sr = validate_file fs cr fp sr'"
    by (simp add: validate_file_def)
  show "validate_file fs cr fp sr = Inr issues \<longrightarrow>
      (\<forall>i\<in>set issues. relative_to fp cr = Inr (i_file i))"
  proof
    assume a: "validate_file fs cr fp sr = Inr issues"
    show "\<forall>i\<in>set issues. relative_to fp cr = Inr (i_file i)"
    proof (cases "read_text fs fp")
      case None
      with a show ?thesis by (simp add: validate_file_def)
    next
      case (Some content)
      with a have "check_lines fs cr fp 1 (split_on CHR 0x0A content) [] = Inr issues"
        by (simp add: validate_file_def)
      then show ?thesis by (rule check_lines_file) simp
    qed
  qed
qed

theorem issue_path_relative_to_codex_root_witness:
  "validate_file example_fs [''codex''] [''codex'', ''docs'', ''top.md''] [''codex'', ''docs''] =
     validate_file example_fs [''codex''] [''codex'', ''docs'', ''top.md''] []
   \<and> validate_file example_fs [''codex''] [''codex'', ''docs'', ''top.md''] [''codex'', ''docs''] =
     Inr [\<lparr>i_file = ''docs/top.md'', i_line = 2, i_link = ''#'',
            i_issue = ''Anchor not found in file''\<rparr>]
   \<and> relative_to [''codex'', ''docs'', ''top.md''] [''codex''] = Inr ''docs/top.md''"
proof -
  have e: "validate_file example_fs [''codex''] [''codex'', ''docs'', ''top.md''] [''codex'', ''docs''] =
     Inr [\<lparr>i_file = ''docs/top.md'', i_line = 2, i_link = ''#'',
            i_issue = ''Anchor not found in file''\<rparr>]"
    by code_simp
  from issue_path_relative_to_codex_root[of example_fs "[''codex'']"
      "[''codex'', ''docs'', ''top.md'']" "[''codex'', ''docs'']" "[]"
      "[\<lparr>i_file = ''docs/top.md'', i_line = 2, i_link = ''#'',
            i_issue = ''Anchor not found in file''\<rparr>]"] e
  show ?thesis by simp
qed

text \<open>
  The claim as stated fails: for a document in \<^verbatim>\<open>codex/docs\<close> scanned with the scan root
  \<^verbatim>\<open>codex/docs\<close>, the issue carries \<^verbatim>\<open>docs/top.md\<close>, and the path relative to the scan
  root is \<^verbatim>\<open>top.md\<close>.
\<close>

theorem issue_path_not_relative_to_scan_root:
  "validate_file example_fs [''codex''] [''codex'', ''docs'', ''top.md''] [''codex'', ''docs''] =
     Inr [\<lparr>i_file = ''docs/top.md'', i_line = 2, i_link = ''#'',
            i_issue = ''Anchor not found in file''\<rparr>]
   \<and> relative_to [''codex'', ''docs'', ''top.md''] [''codex'', ''docs''] = Inr ''top.md''
   \<and> ''docs/top.md'' \<noteq> ''top.md''"
  by code_simp


text \<open>
  Claim C4 says that every cross-document reference to a missing target gives exactly
  one issue. The code guards the listing of the siblings with \<^verbatim>\<open>parent.exists()\<close>; when
  the parent of the missing target is a regular file, \<^verbatim>\<open>iterdir\<close> raises
  \<^verbatim>\<open>NotADirectoryError\<close> and \<^verbatim>\<open>validate_file\<close> returns no issue at all. The document
  \<^verbatim>\<open>crash.md\<close> holds the reference \<^verbatim>\<open>[q](b.md/c)\<close> beside the regular file \<^verbatim>\<open>b.md\<close>.
  Where the parent is a directory or is missing, the reference gives the one issue the
  claim describes (lemmas \<open>check_link_missing_ok\<close> and \<open>first_similar_find\<close>).
\<close>

theorem missing_target_below_regular_file:
  "is_file example_fs [''codex'', ''docs'', ''b.md'']
   \<and> \<not> exists example_fs [''codex'', ''docs'', ''b.md'', ''c'']
   \<and> resolve (joinpath (parent [''codex'', ''docs'', ''crash.md'']) ''b.md/c'') =
       [''codex'', ''docs'', ''b.md'', ''c'']
   \<and> find_links ''[q](b.md/c)'' = [''b.md/c'']
   \<and> validate_file example_fs [''codex''] [''codex'', ''docs'', ''crash.md''] [''codex''] =
       Inl NotADirectoryError"
  by code_simp

text \<open>
  Claim C5 says that a cross-document reference with an anchor part into a regular
  file with no heading for it gives one issue. The code tests \<^verbatim>\<open>if anchor_part and ...\<close>,
  so an empty anchor part (the target \<^verbatim>\<open>b.md#\<close>) is never looked up. As amended: the
  issue is emitted when the anchor part is not empty; a target that is not a regular
  file is never checked for anchors.
\<close>

theorem cross_document_anchor:
  assumes "\<not> (startswith t ''http://'' \<or> startswith t ''https://'' \<or> startswith t ''mailto:'')"
    and "\<not> startswith t ''#''"
    and "split_target t = (file_part, Some a)"
    and "exists fs (resolve (joinpath (parent fp) file_part))"
    and "relative_to fp cr = Inr rel"
  shows
   "(is_file fs (resolve (joinpath (parent fp) file_part)) \<and> a \<noteq> [] \<and>
     (\<forall>content. read_text fs (resolve (joinpath (parent fp) file_part)) = Some content \<longrightarrow>
        (\<forall>h\<in>set (headings content). slugify_heading h \<noteq> a)) \<longrightarrow>
     check_link fs cr fp n t =
       Inr [\<lparr>i_file = rel, i_line = n, i_link = t,
              i_issue = ''Anchor `#'' @ a @ ''` not found in target file''\<rparr>])
    \<and> (\<not> is_file fs (resolve (joinpath (parent fp) file_part)) \<longrightarrow>
         check_link fs cr fp n t = Inr [])"
proof -
  let ?R = "resolve (joinpath (parent fp) file_part)"
  note c = check_link_cross[OF assms(1-4), of cr n]
  have 1: "check_link fs cr fp n t =
       Inr [\<lparr>i_file = rel, i_line = n, i_link = t,
              i_issue = ''Anchor `#'' @ a @ ''` not found in target file''\<rparr>]"
    if f: "is_file fs ?R" and ne: "a \<noteq> []"
      and h: "\<forall>content. read_text fs ?R = Some content \<longrightarrow>
        (\<forall>h\<in>set (headings content). slugify_heading h \<noteq> a)"
  proof -
    from h have "a \<notin> extract_anchors fs ?R"
      by (auto simp: extract_anchors_eq split: option.splits)
    with f ne show ?thesis by (simp add: c report_def assms(5))
  qed
  have 2: "check_link fs cr fp n t = Inr []" if "\<not> is_file fs ?R"
    using that by (simp add: c)
  from 1 2 show ?thesis by blast
qed

theorem cross_document_anchor_witness:
  "check_link example_fs [''codex''] [''codex'', ''docs'', ''top.md''] 7 ''b.md#nope'' =
     Inr [\<lparr>i_file = ''docs/top.md'', i_line = 7, i_link = ''b.md#nope'',
            i_issue = ''Anchor `#nope` not found in target file''\<rparr>]
   \<and> check_link example_fs [''codex''] [''codex'', ''docs'', ''top.md''] 7 ''sub/#nope'' = Inr []
   \<and> is_file example_fs [''codex'', ''docs'', ''b.md'']
   \<and> exists example_fs [''codex'', ''docs'', ''sub'']
   \<and> \<not> is_file example_fs [''codex'', ''docs'', ''sub'']"
proof -
  have n: "\<not> (startswith ''b.md#nope'' ''http://'' \<or> startswith ''b.md#nope'' ''https://'' \<or>
      startswith ''b.md#nope'' ''mailto:'')" "\<not> startswith ''b.md#nope'' ''#''"
    "\<not> (startswith ''sub/#nope'' ''http://'' \<or> startswith ''sub/#nope'' ''https://'' \<or>
      startswith ''sub/#nope'' ''mailto:'')" "\<not> startswith ''sub/#nope'' ''#''"
    by simp_all
  have s: "split_target ''b.md#nope'' = (''b.md'', Some ''nope'')"
    "split_target ''sub/#nope'' = (''sub/'', Some ''nope'')"
    by code_simp+
  have r: "resolve (joinpath (parent [''codex'', ''docs'', ''top.md'']) ''b.md'') =
      [''codex'', ''docs'', ''b.md'']"
    "resolve (joinpath (parent [''codex'', ''docs'', ''top.md'']) ''sub/'') =
      [''codex'', ''docs'', ''sub'']"
    by code_simp+
  have e: "exists example_fs [''codex'', ''docs'', ''b.md'']"
    "exists example_fs [''codex'', ''docs'', ''sub'']"
    "is_file example_fs [''codex'', ''docs'', ''b.md'']"
    "\<not> is_file example_fs [''codex'', ''docs'', ''sub'']"
    by code_simp+
  have rel: "relative_to [''codex'', ''docs'', ''top.md''] [''codex''] = Inr ''docs/top.md''"
    by code_simp
  have t: "read_text example_fs [''codex'', ''docs'', ''b.md''] = Some ''# Title''"
    by code_simp
  have h: "headings ''# Title'' = [''Title'']" "slugify_heading ''Title'' = ''title''"
    by code_simp+
  have a: "check_link example_fs [''codex''] [''codex'', ''docs'', ''top.md''] 7 ''b.md#nope'' =
     Inr [\<lparr>i_file = ''docs/top.md'', i_line = 7, i_link = ''b.md#nope'',
            i_issue = ''Anchor `#nope` not found in target file''\<rparr>]"
    using cross_document_anchor[OF n(1,2) s(1), of example_fs "[''codex'', ''docs'', ''top.md'']"
        "[''codex'']" "''docs/top.md''" 7]
    by (simp add: r e rel t h)
  have b: "check_link example_fs [''codex''] [''codex'', ''docs'', ''top.md''] 7 ''sub/#nope'' = Inr []"
    using cross_document_anchor[OF n(3,4) s(2), of example_fs "[''codex'', ''docs'', ''top.md'']"
        "[''codex'']" "''docs/top.md''" 7]
    by (simp add: r e rel)
  from a b e show ?thesis by simp
qed

text \<open>
  The claim as stated fails at the target \<^verbatim>\<open>b.md#\<close>: it carries the anchor part
  \<^verbatim>\<open>""\<close>, the target is a regular file whose only heading slugifies to \<^verbatim>\<open>title\<close>,
  and no issue is emitted.
\<close>

theorem empty_anchor_part_not_reported:
  "split_target ''b.md#'' = (''b.md'', Some [])
   \<and> resolve (joinpath (parent [''codex'', ''docs'', ''top.md'']) ''b.md'') =
       [''codex'', ''docs'', ''b.md'']
   \<and> is_file example_fs [''codex'', ''docs'', ''b.md'']
   \<and> read_text example_fs [''codex'', ''docs'', ''b.md''] = Some ''# Title''
   \<and> headings ''# Title'' = [''Title'']
   \<and> slugify_heading ''Title'' = ''title''
   \<and> check_link example_fs [''codex''] [''codex'', ''docs'', ''top.md''] 7 ''b.md#'' = Inr []"
  by code_simp



text \<open>
  Claim C6. A cross-document target that ends in its only hash, so that the anchor
  part is the empty text, and whose file part resolves to a regular file gives no
  issue: the empty anchor part is never looked up.
\<close>

theorem empty_anchor_part_disables_check:
  assumes "file_part \<noteq> []" and "CHR ''#'' \<notin> set file_part"
    and "is_file fs (resolve (joinpath (parent fp) file_part))"
  shows "split_target (file_part @ ''#'') = (file_part, Some [])
         \<and> check_link fs cr fp n (file_part @ ''#'') = Inr []"
proof -
  have s: "split_target (file_part @ ''#'') = (file_part, Some [])"
    using split_target_hash[OF assms(2), of "[]"] by simp
  from assms(1,2) have h: "\<not> startswith (file_part @ ''#'') ''#''"
    by (cases file_part) auto
  have e: "exists fs (resolve (joinpath (parent fp) file_part))"
    using assms(3) by (rule is_file_exists)
  have "check_link fs cr fp n (file_part @ ''#'') = Inr []"
  proof (cases "startswith (file_part @ ''#'') ''http://'' \<or>
      startswith (file_part @ ''#'') ''https://'' \<or> startswith (file_part @ ''#'') ''mailto:''")
    case True
    then show ?thesis by (simp add: check_link_def)
  next
    case False
    from check_link_cross[OF False h s e] show ?thesis by simp
  qed
  with s show ?thesis by simp
qed

theorem empty_anchor_part_disables_check_witness:
  "is_file example_fs (resolve (joinpath (parent [''codex'', ''docs'', ''top.md'']) ''b.md''))
   \<and> split_target ''b.md#'' = (''b.md'', Some [])
   \<and> check_link example_fs [''codex''] [''codex'', ''docs'', ''top.md''] 3 ''b.md#'' = Inr []"
proof -
  have f: "is_file example_fs (resolve (joinpath (parent [''codex'', ''docs'', ''top.md'']) ''b.md''))"
    by code_simp
  have "''b.md'' \<noteq> []" "CHR ''#'' \<notin> set ''b.md''" by simp_all
  from empty_anchor_part_disables_check[OF this f, of "[''codex'']" 3] f
  show ?thesis by simp
qed



text \<open>
  Claim C8 says that a reference whose target starts with a hash gives no issue when
  some heading of the document slugifies to the rest of the target. The extractor
  leaves empty slugs out of its set, so the target \<^verbatim>\<open>#\<close> is always reported, also in a
  document with a heading that slugifies to the empty text. As amended: the reference
  gives no issue when the rest of the target is not empty and some heading slugifies
  to it, and exactly one issue with the reason \<^verbatim>\<open>Anchor not found in file\<close> otherwise.
\<close>

theorem same_document_anchor:
  assumes "startswith t ''#''" and "read_text fs fp = Some content"
    and "relative_to fp cr = Inr rel"
  shows "check_link fs cr fp n t =
     (if drop 1 t \<noteq> [] \<and> (\<exists>h\<in>set (headings content). slugify_heading h = drop 1 t)
      then Inr []
      else Inr [\<lparr>i_file = rel, i_line = n, i_link = t, i_issue = ''Anchor not found in file''\<rparr>])"
proof -
  have a: "drop 1 t \<in> extract_anchors fs fp \<longleftrightarrow>
      drop 1 t \<noteq> [] \<and> (\<exists>h\<in>set (headings content). slugify_heading h = drop 1 t)"
    by (simp add: extract_anchors_eq assms(2))
  have "check_link fs cr fp n t =
      (if drop 1 t \<notin> extract_anchors fs fp
       then report cr fp n t ''Anchor not found in file'' else Inr [])"
    using startswith_hash_not_external[OF assms(1)] assms(1)
    by (simp add: check_link_def Let_def)
  then show ?thesis using a by (simp add: report_def assms(3))
qed

theorem same_document_anchor_witness:
  "check_link example_fs [''codex''] [''codex'', ''docs'', ''intro.md''] 9 ''#intro'' = Inr []
   \<and> check_link example_fs [''codex''] [''codex'', ''docs'', ''intro.md''] 9 ''#missing-anchor'' =
       Inr [\<lparr>i_file = ''docs/intro.md'', i_line = 9, i_link = ''#missing-anchor'',
              i_issue = ''Anchor not found in file''\<rparr>]
   \<and> headings (''# Intro'' @ [CHR 0x0A] @ ''text'' @ [CHR 0x0A] @ ''## Intro'') = [''Intro'', ''Intro'']
   \<and> slugify_heading ''Intro'' = ''intro''"
proof -
  have t: "read_text example_fs [''codex'', ''docs'', ''intro.md''] =
      Some (''# Intro'' @ [CHR 0x0A] @ ''text'' @ [CHR 0x0A] @ ''## Intro'')"
    by code_simp
  have rel: "relative_to [''codex'', ''docs'', ''intro.md''] [''codex''] = Inr ''docs/intro.md''"
    by code_simp
  have h: "headings (''# Intro'' @ [CHR 0x0A] @ ''text'' @ [CHR 0x0A] @ ''## Intro'') = [''Intro'', ''Intro'']"
    by code_simp
  have s: "slugify_heading ''Intro'' = ''intro''" by code_simp
  have 1: "startswith ''#intro'' ''#''" "startswith ''#missing-anchor'' ''#''" by simp_all
  from same_document_anchor[OF 1(1) t rel, of 9] same_document_anchor[OF 1(2) t rel, of 9] h s
  show ?thesis by simp
qed

text \<open>
  The claim as stated fails for the document \<^verbatim>\<open>top.md\<close>: its heading \<^verbatim>\<open>???\<close> slugifies
  to the empty text, which is the target \<^verbatim>\<open>#\<close> without its hash, and the reference is
  reported all the same.
\<close>

theorem empty_anchor_reported_despite_heading:
  "read_text example_fs [''codex'', ''docs'', ''top.md''] = Some (''# ???'' @ [CHR 0x0A] @ ''[top](#)'')
   \<and> headings (''# ???'' @ [CHR 0x0A] @ ''[top](#)'') = [''???'']
   \<and> slugify_heading ''???'' = drop 1 ''#''
   \<and> validate_file example_fs [''codex''] [''codex'', ''docs'', ''top.md''] [''codex''] =
       Inr [\<lparr>i_file = ''docs/top.md'', i_line = 2, i_link = ''#'',
              i_issue = ''Anchor not found in file''\<rparr>]"
  by code_simp

text \<open>
  Claim C9. The extractor returns a set: the non-empty slugs of the headings, each
  once however many headings give it, and never the empty text. A document whose
  headings are two occurrences of \<^verbatim>\<open>Intro\<close> has the one anchor \<^verbatim>\<open>intro\<close>.
\<close>

theorem extract_anchors_proper_set:
  "[] \<notin> extract_anchors fs p
   \<and> (read_text fs p = Some content \<longrightarrow>
        extract_anchors fs p =
          {s. s \<noteq> [] \<and> (\<exists>h\<in>set (headings content). slugify_heading h = s)}
        \<and> (headings content = [''Intro'', ''Intro''] \<longrightarrow>
             extract_anchors fs p = {''intro''} \<and> card (extract_anchors fs p) = 1))"
proof -
  have 1: "[] \<notin> extract_anchors fs p"
    by (simp add: extract_anchors_eq split: option.splits)
  have 2: "extract_anchors fs p =
          {s. s \<noteq> [] \<and> (\<exists>h\<in>set (headings content). slugify_heading h = s)}"
    if "read_text fs p = Some content"
    using that by (simp add: extract_anchors_eq)
  have s: "slugify_heading ''Intro'' = ''intro''" by code_simp
  have 3: "extract_anchors fs p = {''intro''} \<and> card (extract_anchors fs p) = 1"
    if r: "read_text fs p = Some content" and h: "headings content = [''Intro'', ''Intro'']"
  proof -
    have "extract_anchors fs p = {''intro''}"
      unfolding 2[OF r] h using s by auto
    then show ?thesis by simp
  qed
  from 1 2 3 show ?thesis by blast
qed

theorem extract_anchors_proper_set_witness:
  "read_text example_fs [''codex'', ''docs'', ''intro.md''] =
     Some (''# Intro'' @ [CHR 0x0A] @ ''text'' @ [CHR 0x0A] @ ''## Intro'')
   \<and> headings (''# Intro'' @ [CHR 0x0A] @ ''text'' @ [CHR 0x0A] @ ''## Intro'') = [''Intro'', ''Intro'']
   \<and> extract_anchors example_fs [''codex'', ''docs'', ''intro.md''] = {''intro''}
   \<and> card (extract_anchors example_fs [''codex'', ''docs'', ''intro.md'']) = 1
   \<and> [] \<notin> extract_anchors example_fs [''codex'', ''docs'', ''intro.md'']"
proof -
  have t: "read_text example_fs [''codex'', ''docs'', ''intro.md''] =
      Some (''# Intro'' @ [CHR 0x0A] @ ''text'' @ [CHR 0x0A] @ ''## Intro'')"
    by code_simp
  have h: "headings (''# Intro'' @ [CHR 0x0A] @ ''text'' @ [CHR 0x0A] @ ''## Intro'') = [''Intro'', ''Intro'']"
    by code_simp
  from extract_anchors_proper_set[of example_fs "[''codex'', ''docs'', ''intro.md'']"
      "''# Intro'' @ [CHR 0x0A] @ ''text'' @ [CHR 0x0A] @ ''## Intro''"] t h
  show ?thesis by blast
qed

end
